theory Spec2Isabelle
  imports Complex_Main
begin

section \<open>Python values and exceptions\<close>

text \<open>
  The script \<^verbatim>\<open>scripts/download_historical_data.py\<close> handles values decoded from JSON
  and Python's own \<^verbatim>\<open>None\<close>. A dictionary is an association list in insertion order
  with distinct keys (what \<^verbatim>\<open>json\<close> decoding produces); its keys are strings. A float
  is represented by the rational it denotes.
\<close>

datatype pyval =
    PyNone
  | PyBool bool
  | PyInt int
  | PyFloat rat
  | PyStr string
  | PyList "pyval list"
  | PyDict "(string \<times> pyval) list"

text \<open>
  The exceptions that can leave the functions of the script. \<open>DateRangeError\<close> stands for
  the \<^verbatim>\<open>OverflowError\<close>, \<^verbatim>\<open>OSError\<close> or \<^verbatim>\<open>ValueError\<close> (which one depends on the
  platform) that \<^verbatim>\<open>datetime.fromtimestamp\<close> raises outside the supported range.
\<close>

datatype py_exn =
    TypeError
  | KeyError
  | ValueError
  | AttributeError
  | DateRangeError
  | FileNotFoundError
  | IsADirectoryError
  | NotADirectoryError

text \<open>Truth value of an object, as tested by \<^verbatim>\<open>if x:\<close> and \<^verbatim>\<open>if not x:\<close>.\<close>

fun truthy :: "pyval \<Rightarrow> bool" where
  "truthy PyNone = False"
| "truthy (PyBool b) = b"
| "truthy (PyInt i) = (i \<noteq> 0)"
| "truthy (PyFloat r) = (r \<noteq> 0)"
| "truthy (PyStr s) = (s \<noteq> [])"
| "truthy (PyList xs) = (xs \<noteq> [])"
| "truthy (PyDict kvs) = (kvs \<noteq> [])"

text \<open>Iteration over an object, as \<^verbatim>\<open>list.extend\<close> does: non-iterables raise.\<close>

fun py_iter :: "pyval \<Rightarrow> py_exn + pyval list" where
  "py_iter (PyList xs) = Inr xs"
| "py_iter (PyDict kvs) = Inr (map (\<lambda>kv. PyStr (fst kv)) kvs)"
| "py_iter (PyStr s) = Inr (map (\<lambda>c. PyStr [c]) s)"
| "py_iter PyNone = Inl TypeError"
| "py_iter (PyBool b) = Inl TypeError"
| "py_iter (PyInt i) = Inl TypeError"
| "py_iter (PyFloat r) = Inl TypeError"

text \<open>Whether \<open>k\<close> occurs in \<open>s\<close> as a contiguous substring (\<^verbatim>\<open>k in s\<close> on strings).\<close>

fun is_prefix :: "string \<Rightarrow> string \<Rightarrow> bool" where
  "is_prefix [] s = True"
| "is_prefix (c # k) [] = False"
| "is_prefix (c # k) (d # s) = (c = d \<and> is_prefix k s)"

fun substring :: "string \<Rightarrow> string \<Rightarrow> bool" where
  "substring k [] = (k = [])"
| "substring k (d # s) = (is_prefix k (d # s) \<or> substring k s)"

text \<open>The test \<^verbatim>\<open>k in x\<close> for a string \<open>k\<close>.\<close>

fun py_contains :: "string \<Rightarrow> pyval \<Rightarrow> py_exn + bool" where
  "py_contains k (PyDict kvs) = Inr (k \<in> set (map fst kvs))"
| "py_contains k (PyList xs) = Inr (PyStr k \<in> set xs)"
| "py_contains k (PyStr s) = Inr (substring k s)"
| "py_contains k PyNone = Inl TypeError"
| "py_contains k (PyBool b) = Inl TypeError"
| "py_contains k (PyInt i) = Inl TypeError"
| "py_contains k (PyFloat r) = Inl TypeError"

text \<open>Subscription \<^verbatim>\<open>x[k]\<close> with a string \<open>k\<close>.\<close>

fun py_getitem :: "pyval \<Rightarrow> string \<Rightarrow> py_exn + pyval" where
  "py_getitem (PyDict kvs) k = (case map_of kvs k of None \<Rightarrow> Inl KeyError | Some v \<Rightarrow> Inr v)"
| "py_getitem (PyList xs) k = Inl TypeError"
| "py_getitem (PyStr s) k = Inl TypeError"
| "py_getitem PyNone k = Inl TypeError"
| "py_getitem (PyBool b) k = Inl TypeError"
| "py_getitem (PyInt i) k = Inl TypeError"
| "py_getitem (PyFloat r) k = Inl TypeError"

section \<open>The file system seen by the CSV writer\<close>

text \<open>
  A CSV file is the list of rows handed to \<^verbatim>\<open>csv.writer\<close>, each row the list of its
  cells; quoting and line ends are the \<^verbatim>\<open>csv\<close> module's business. Paths are POSIX
  paths, compared as strings. Permissions and full disks are not modelled.
\<close>

type_synonym csv_row = "pyval list"

record filesystem =
  dirs :: "string set"
  files :: "string \<rightharpoonup> csv_row list"

definition is_slash :: "char \<Rightarrow> bool" where
  "is_slash c = (c = CHR ''/'')"

text \<open>\<^verbatim>\<open>posixpath.dirname\<close>: up to the last slash, trailing slashes removed unless
  nothing else is left.\<close>

definition dirname :: "string \<Rightarrow> string" where
  "dirname p =
     (let head = rev (dropWhile (\<lambda>c. \<not> is_slash c) (rev p))
      in if head \<noteq> [] \<and> \<not> list_all is_slash head
         then rev (dropWhile is_slash (rev head)) else head)"

definition path_exists :: "filesystem \<Rightarrow> string \<Rightarrow> bool" where
  "path_exists fs p = (p \<in> dirs fs \<or> files fs p \<noteq> None)"

text \<open>The path and its ancestors, nearest first.\<close>

fun ancestors :: "nat \<Rightarrow> string \<Rightarrow> string list" where
  "ancestors 0 p = []"
| "ancestors (Suc n) p =
     (if p = [] \<or> list_all is_slash p then [] else p # ancestors n (dirname p))"

text \<open>\<^verbatim>\<open>os.makedirs\<close> creates the directory and every missing ancestor. The empty path
  does not name a directory; an ancestor that is a file is in the way.\<close>

definition makedirs :: "string \<Rightarrow> filesystem \<Rightarrow> py_exn + filesystem" where
  "makedirs d fs =
     (if d = [] then Inl FileNotFoundError
      else if list_ex (\<lambda>a. files fs a \<noteq> None) (ancestors (length d) d) then Inl NotADirectoryError
      else Inr (fs\<lparr>dirs := dirs fs \<union> set (ancestors (length d) d)\<rparr>))"

text \<open>The path without its trailing slashes.\<close>

definition strip_slashes :: "string \<Rightarrow> string" where
  "strip_slashes p = rev (dropWhile is_slash (rev p))"

text \<open>\<^verbatim>\<open>open(path, 'w')\<close> creates or truncates the file. A path without a directory
  part lies in the working directory, which exists. A path that ends in a slash names
  a directory, which cannot be opened for writing.\<close>

definition open_w :: "string \<Rightarrow> filesystem \<Rightarrow> py_exn + filesystem" where
  "open_w p fs =
     (let parent = dirname (strip_slashes p) in
      if p = [] then Inl FileNotFoundError
      else if p \<in> dirs fs then Inl IsADirectoryError
      else if files fs parent \<noteq> None then Inl NotADirectoryError
      else if parent \<noteq> [] \<and> parent \<notin> dirs fs then Inl FileNotFoundError
      else if is_slash (last p) then Inl IsADirectoryError
      else Inr (fs\<lparr>files := (files fs)(p \<mapsto> [])\<rparr>))"

definition append_row :: "string \<Rightarrow> csv_row \<Rightarrow> filesystem \<Rightarrow> filesystem" where
  "append_row p r fs =
     fs\<lparr>files := (files fs)(p \<mapsto> (case files fs p of None \<Rightarrow> [] | Some rs \<Rightarrow> rs) @ [r])\<rparr>"

section \<open>csv.DictWriter\<close>

text \<open>\<^verbatim>\<open>dict.keys()\<close> is an attribute of dictionaries only.\<close>

fun py_keys :: "pyval \<Rightarrow> py_exn + string list" where
  "py_keys (PyDict kvs) = Inr (map fst kvs)"
| "py_keys PyNone = Inl AttributeError"
| "py_keys (PyBool b) = Inl AttributeError"
| "py_keys (PyInt i) = Inl AttributeError"
| "py_keys (PyFloat r) = Inl AttributeError"
| "py_keys (PyStr s) = Inl AttributeError"
| "py_keys (PyList xs) = Inl AttributeError"

text \<open>
  \<^verbatim>\<open>DictWriter._dict_to_list\<close> with the defaults \<^verbatim>\<open>restval=''\<close> and
  \<^verbatim>\<open>extrasaction='raise'\<close>: a key outside the field names is a \<^verbatim>\<open>ValueError\<close>, a
  missing key yields the empty string.
\<close>

fun dict_to_list :: "string list \<Rightarrow> pyval \<Rightarrow> py_exn + csv_row" where
  "dict_to_list fieldnames (PyDict kvs) =
     (if list_ex (\<lambda>k. k \<notin> set fieldnames) (map fst kvs) then Inl ValueError
      else Inr (map (\<lambda>k. case map_of kvs k of None \<Rightarrow> PyStr [] | Some v \<Rightarrow> v) fieldnames))"
| "dict_to_list fieldnames PyNone = Inl AttributeError"
| "dict_to_list fieldnames (PyBool b) = Inl AttributeError"
| "dict_to_list fieldnames (PyInt i) = Inl AttributeError"
| "dict_to_list fieldnames (PyFloat r) = Inl AttributeError"
| "dict_to_list fieldnames (PyStr s) = Inl AttributeError"
| "dict_to_list fieldnames (PyList xs) = Inl AttributeError"

text \<open>\<^verbatim>\<open>writerows\<close> converts and writes one row at a time: the rows before a bad
  one are in the file when the exception leaves.\<close>

fun writerows :: "string \<Rightarrow> string list \<Rightarrow> pyval list \<Rightarrow> filesystem \<Rightarrow> (py_exn + unit) \<times> filesystem" where
  "writerows p fieldnames [] fs = (Inr (), fs)"
| "writerows p fieldnames (r # rs) fs =
     (case dict_to_list fieldnames r of
        Inl e \<Rightarrow> (Inl e, fs)
      | Inr row \<Rightarrow> writerows p fieldnames rs (append_row p row fs))"

section \<open>Saving the records\<close>

text \<open>
  \<^verbatim>\<open>_save_data_to_csv(data, file_path)\<close>. The result is the exception that left the
  function, if any, the lines it printed and the file system afterwards.
\<close>

definition save_data_to_csv ::
  "pyval list \<Rightarrow> string \<Rightarrow> filesystem \<Rightarrow> (py_exn + unit) \<times> string list \<times> filesystem" where
  "save_data_to_csv data file_path fs =
     (if data = [] then (Inr (), [''No data to save.''], fs)
      else
        let directory = dirname file_path in
        case (if \<not> path_exists fs directory then makedirs directory fs else Inr fs) of
          Inl e \<Rightarrow> (Inl e, [], fs)
        | Inr fs1 \<Rightarrow>
            (case open_w file_path fs1 of
               Inl e \<Rightarrow> (Inl e, [], fs1)
             | Inr fs2 \<Rightarrow>
                 (case py_keys (hd data) of
                    Inl e \<Rightarrow> (Inl e, [], fs2)
                  | Inr headers \<Rightarrow>
                      let fs3 = append_row file_path (map PyStr headers) fs2 in
                      (case writerows file_path headers data fs3 of
                         (Inl e, fs4) \<Rightarrow> (Inl e, [], fs4)
                       | (Inr u, fs4) \<Rightarrow>
                           (Inr (), [''Successfully saved data to: '' @ file_path], fs4)))))"

section \<open>Naming the output file\<close>

text \<open>The reading of the wall clock, \<^verbatim>\<open>datetime.datetime.now()\<close>, in local time.\<close>

record datetime =
  year :: nat
  month :: nat
  day :: nat
  hour :: nat
  minute :: nat
  second :: nat
  microsecond :: nat

text \<open>The decimal numeral of a natural number; \<open>digit_char\<close> is applied to digits only.\<close>

definition digit_char :: "nat \<Rightarrow> char" where
  "digit_char d = ''0123456789'' ! d"

fun decimal :: "nat \<Rightarrow> string" where
  "decimal n = (if n < 10 then [digit_char n] else decimal (n div 10) @ [digit_char (n mod 10)])"

declare decimal.simps [simp del]

definition zero_pad :: "nat \<Rightarrow> string \<Rightarrow> string" where
  "zero_pad w s = replicate (w - length s) (CHR ''0'') @ s"

text \<open>\<^verbatim>\<open>strftime("%Y%m%d-%H%M%S")\<close>: every field in decimal, padded with zeros to four
  digits for the year and two for the others. (Before the year 1000, which no clock
  reads, some C libraries do not pad the year.)\<close>

definition strftime :: "datetime \<Rightarrow> string" where
  "strftime t =
     zero_pad 4 (decimal (year t)) @ zero_pad 2 (decimal (month t)) @ zero_pad 2 (decimal (day t))
     @ ''-'' @
     zero_pad 2 (decimal (hour t)) @ zero_pad 2 (decimal (minute t)) @ zero_pad 2 (decimal (second t))"

text \<open>\<^verbatim>\<open>_generate_unique_filename\<close>; the clock reading is its fifth input.\<close>

definition generate_unique_filename :: "datetime \<Rightarrow> string \<Rightarrow> string \<Rightarrow> string \<Rightarrow> string \<Rightarrow> string" where
  "generate_unique_filename now instrument data_type start_date end_date =
     (let run_timestamp = strftime now
      in ''DERIBIT_'' @ instrument @ ''_'' @ data_type @ ''_from_'' @ start_date
         @ ''_to_'' @ end_date @ ''_at_'' @ run_timestamp @ ''.csv'')"

section \<open>Fetching one chunk\<close>

text \<open>
  The network is a parameter: a function from the state of the outside world and the
  request to what \<^verbatim>\<open>requests.get\<close> meets and the world afterwards. \<open>RequestFailed\<close> is a
  \<^verbatim>\<open>RequestException\<close> raised by the transport; a response carries its status code and
  its body decoded as JSON, \<open>None\<close> when the body is not JSON (\<^verbatim>\<open>response.json()\<close>
  then raises \<^verbatim>\<open>requests.exceptions.JSONDecodeError\<close>, a \<^verbatim>\<open>RequestException\<close>).
\<close>

record request =
  instrument_name :: string
  start_timestamp :: int
  end_timestamp :: int

datatype http_outcome = RequestFailed | Response nat "pyval option"

type_synonym 'w network = "'w \<Rightarrow> request \<Rightarrow> http_outcome \<times> 'w"

text \<open>\<^verbatim>\<open>raise_for_status\<close> raises \<^verbatim>\<open>HTTPError\<close> for the codes 400 to 599.\<close>

definition raise_for_status :: "nat \<Rightarrow> bool" where
  "raise_for_status status = (400 \<le> status \<and> status < 600)"

text \<open>
  The body of the \<^verbatim>\<open>try\<close> block once the JSON is decoded. Only
  \<^verbatim>\<open>RequestException\<close> is caught, so a \<^verbatim>\<open>TypeError\<close> or \<^verbatim>\<open>KeyError\<close> raised here
  leaves the function.
\<close>

definition read_response :: "pyval \<Rightarrow> py_exn + pyval" where
  "read_response response_json =
     (case py_contains ''result'' response_json of
        Inl e \<Rightarrow> Inl e
      | Inr True \<Rightarrow> py_getitem response_json ''result''
      | Inr False \<Rightarrow>
          (case py_contains ''error'' response_json of
             Inl e \<Rightarrow> Inl e
           | Inr True \<Rightarrow>
               (case py_getitem response_json ''error'' of
                  Inl e \<Rightarrow> Inl e
                | Inr err \<Rightarrow>
                    (case py_getitem err ''message'' of
                       Inl e \<Rightarrow> Inl e
                     | Inr message \<Rightarrow> Inr PyNone))
           | Inr False \<Rightarrow> Inr PyNone))"

text \<open>\<^verbatim>\<open>_get_funding_rate_history_chunk\<close>: the value returned or the exception raised,
  and the world after the request.\<close>

definition get_funding_rate_history_chunk ::
  "'w network \<Rightarrow> string \<Rightarrow> int \<Rightarrow> int \<Rightarrow> 'w \<Rightarrow> (py_exn + pyval) \<times> 'w" where
  "get_funding_rate_history_chunk net instrument start_timestamp_ms end_timestamp_ms w =
     (case net w \<lparr>instrument_name = instrument, start_timestamp = start_timestamp_ms,
                   end_timestamp = end_timestamp_ms\<rparr> of
        (RequestFailed, w') \<Rightarrow> (Inr PyNone, w')
      | (Response status body, w') \<Rightarrow>
          if raise_for_status status then (Inr PyNone, w')
          else (case body of
                  None \<Rightarrow> (Inr PyNone, w')
                | Some response_json \<Rightarrow> (read_response response_json, w')))"

section \<open>Fetching the range in chunks\<close>

text \<open>
  What the loop needs from the host: the range of epoch milliseconds that
  \<^verbatim>\<open>datetime.fromtimestamp\<close> accepts (it depends on the platform and the time zone), and
  for the orchestrator the epoch second of local midnight of a date string,
  \<^verbatim>\<open>strptime(s, "%Y-%m-%d").timestamp()\<close>, or the exception of a string that is no date.
\<close>

record platform =
  dt_min :: int
  dt_max :: int
  local_midnight :: "string \<Rightarrow> py_exn + int"

text \<open>\<^verbatim>\<open>datetime.datetime.fromtimestamp(ts / 1000)\<close>, computed for the progress line; only
  whether it raises matters here.\<close>

definition fromtimestamp_ms :: "platform \<Rightarrow> int \<Rightarrow> py_exn + unit" where
  "fromtimestamp_ms pf ts = (if dt_min pf \<le> ts \<and> ts \<le> dt_max pf then Inr () else Inl DateRangeError)"

text \<open>\<^verbatim>\<open>time.sleep\<close> refuses a negative length.\<close>

definition time_sleep :: "rat \<Rightarrow> py_exn + unit" where
  "time_sleep secs = (if secs < 0 then Inl ValueError else Inr ())"

text \<open>\<^verbatim>\<open>all_data.extend(chunk_data)\<close>\<close>

definition list_extend :: "pyval list \<Rightarrow> pyval \<Rightarrow> py_exn + pyval list" where
  "list_extend all_data chunk_data =
     (case py_iter chunk_data of Inl e \<Rightarrow> Inl e | Inr xs \<Rightarrow> Inr (all_data @ xs))"

text \<open>
  The loop keeps, beside \<^verbatim>\<open>all_data\<close> and \<^verbatim>\<open>current_start_ts\<close>, a log of the calls of
  the single-chunk fetcher: the window of each call and what came back. The log is not
  in the program; it is there to state properties of the calls. The progress lines the
  loop prints are left out.
\<close>

type_synonym chunk_call = "int \<times> int \<times> (py_exn + pyval)"

datatype 'w step =
    Raised py_exn "chunk_call list" 'w
  | Next int "pyval list" "chunk_call list" 'w

text \<open>One pass through the body of the \<^verbatim>\<open>while\<close> loop.\<close>

definition chunk_step ::
  "platform \<Rightarrow> 'w network \<Rightarrow> string \<Rightarrow> int \<Rightarrow> int \<Rightarrow> rat \<Rightarrow>
   int \<Rightarrow> pyval list \<Rightarrow> chunk_call list \<Rightarrow> 'w \<Rightarrow> 'w step" where
  "chunk_step pf net instrument end_timestamp_ms chunk_size_ms sleep_interval_seconds
     current_start_ts all_data trace w =
     (let current_end_ts = min (current_start_ts + chunk_size_ms) end_timestamp_ms in
      case fromtimestamp_ms pf current_start_ts of
        Inl e \<Rightarrow> Raised e trace w
      | Inr start_dt \<Rightarrow>
      (case fromtimestamp_ms pf current_end_ts of
        Inl e \<Rightarrow> Raised e trace w
      | Inr end_dt \<Rightarrow>
      (case get_funding_rate_history_chunk net instrument current_start_ts current_end_ts w of
        (Inl e, w') \<Rightarrow> Raised e (trace @ [(current_start_ts, current_end_ts, Inl e)]) w'
      | (Inr chunk_data, w') \<Rightarrow>
          let trace' = trace @ [(current_start_ts, current_end_ts, Inr chunk_data)] in
          (case (if truthy chunk_data then list_extend all_data chunk_data else Inr all_data) of
             Inl e \<Rightarrow> Raised e trace' w'
           | Inr all_data' \<Rightarrow>
               (case time_sleep sleep_interval_seconds of
                  Inl e \<Rightarrow> Raised e trace' w'
                | Inr u \<Rightarrow> Next (current_start_ts + chunk_size_ms) all_data' trace' w')))))"

record 'w fetched =
  outcome :: "py_exn + pyval list"
  calls :: "chunk_call list"
  world :: 'w

text \<open>The \<^verbatim>\<open>while\<close> loop. It need not end (a stride that is not positive), so it is a
  partial function: \<open>None\<close> is a run that never returns.\<close>

partial_function (option) chunk_loop ::
  "platform \<Rightarrow> 'w network \<Rightarrow> string \<Rightarrow> int \<Rightarrow> int \<Rightarrow> rat \<Rightarrow>
   int \<Rightarrow> pyval list \<Rightarrow> chunk_call list \<Rightarrow> 'w \<Rightarrow> 'w fetched option" where
  "chunk_loop pf net instrument end_timestamp_ms chunk_size_ms sleep_interval_seconds
     current_start_ts all_data trace w =
     (if current_start_ts < end_timestamp_ms then
        (case chunk_step pf net instrument end_timestamp_ms chunk_size_ms sleep_interval_seconds
                current_start_ts all_data trace w of
           Raised e trace' w' \<Rightarrow> Some \<lparr>outcome = Inl e, calls = trace', world = w'\<rparr>
         | Next current_start_ts' all_data' trace' w' \<Rightarrow>
             chunk_loop pf net instrument end_timestamp_ms chunk_size_ms sleep_interval_seconds
               current_start_ts' all_data' trace' w')
      else Some \<lparr>outcome = Inr all_data, calls = trace, world = w\<rparr>)"

definition chunk_size_ms_of :: "int \<Rightarrow> int" where
  "chunk_size_ms_of chunk_size_days = chunk_size_days * 24 * 60 * 60 * 1000"

text \<open>\<^verbatim>\<open>_fetch_data_in_chunks\<close>\<close>

definition fetch_data_in_chunks ::
  "platform \<Rightarrow> 'w network \<Rightarrow> string \<Rightarrow> int \<Rightarrow> int \<Rightarrow> int \<Rightarrow> rat \<Rightarrow> 'w \<Rightarrow> 'w fetched option" where
  "fetch_data_in_chunks pf net instrument start_timestamp_ms end_timestamp_ms chunk_size_days
     sleep_interval_seconds w =
     chunk_loop pf net instrument end_timestamp_ms (chunk_size_ms_of chunk_size_days)
       sleep_interval_seconds start_timestamp_ms [] [] w"

section \<open>The orchestrator\<close>

text \<open>The configuration constants of the script.\<close>

definition START_DATE :: string where "START_DATE = ''2025-07-10''"
definition END_DATE :: string where "END_DATE = ''2025-07-17''"
definition INSTRUMENT_NAME :: string where "INSTRUMENT_NAME = ''BTC-PERPETUAL''"
definition DATA_TYPE :: string where "DATA_TYPE = ''funding_rate_history''"
definition OUTPUT_DIRECTORY :: string where "OUTPUT_DIRECTORY = ''./data/raw''"
definition CHUNK_SIZE_DAYS :: int where "CHUNK_SIZE_DAYS = 1"
definition SLEEP_INTERVAL_SECONDS :: rat where "SLEEP_INTERVAL_SECONDS = 1 / 2"

text \<open>
  \<^verbatim>\<open>_date_to_timestamp_ms\<close>. The parsed date is midnight, local time; its
  \<^verbatim>\<open>timestamp()\<close> is a whole number of seconds held in a float, and the product with
  1000 and its truncation by \<^verbatim>\<open>int\<close> are exact for every date \<^verbatim>\<open>datetime\<close> has.
\<close>

definition date_to_timestamp_ms :: "platform \<Rightarrow> string \<Rightarrow> py_exn + int" where
  "date_to_timestamp_ms pf date_string =
     (case local_midnight pf date_string of
        Inl e \<Rightarrow> Inl e
      | Inr seconds \<Rightarrow> Inr (seconds * 1000))"

text \<open>\<^verbatim>\<open>posixpath.join\<close> of two components.\<close>

definition path_join :: "string \<Rightarrow> string \<Rightarrow> string" where
  "path_join a b =
     (if b \<noteq> [] \<and> is_slash (hd b) then b
      else if a = [] \<or> is_slash (last a) then a @ b
      else a @ ''/'' @ b)"

text \<open>
  \<^verbatim>\<open>download_historical_data\<close>. The clock is read once, when the file is named. The
  result holds the exception that left the function, if any, the lines printed by the
  function itself and by \<^verbatim>\<open>_save_data_to_csv\<close> (the progress lines of the loop, which
  come between the banner and the second rule, are left out), and the file system and
  the world afterwards.
\<close>

record 'w finished =
  raised :: "py_exn option"
  printed :: "string list"
  disk :: filesystem
  final_world :: 'w

definition download_historical_data ::
  "platform \<Rightarrow> 'w network \<Rightarrow> ('w \<Rightarrow> datetime) \<Rightarrow> 'w \<Rightarrow> filesystem \<Rightarrow> 'w finished option" where
  "download_historical_data pf net clock w fs =
     (let banner = [''--- Starting Deribit Data Download ---'',
                    ''Instrument: '' @ INSTRUMENT_NAME,
                    ''Date Range: '' @ START_DATE @ '' to '' @ END_DATE,
                    replicate 35 (CHR ''-'')] in
      case date_to_timestamp_ms pf START_DATE of
        Inl e \<Rightarrow> Some \<lparr>raised = Some e, printed = banner, disk = fs, final_world = w\<rparr>
      | Inr start_ts \<Rightarrow>
      (case date_to_timestamp_ms pf END_DATE of
        Inl e \<Rightarrow> Some \<lparr>raised = Some e, printed = banner, disk = fs, final_world = w\<rparr>
      | Inr end_ts \<Rightarrow>
      (case fetch_data_in_chunks pf net INSTRUMENT_NAME start_ts end_ts CHUNK_SIZE_DAYS
              SLEEP_INTERVAL_SECONDS w of
        None \<Rightarrow> None
      | Some r \<Rightarrow>
      (case outcome r of
        Inl e \<Rightarrow> Some \<lparr>raised = Some e, printed = banner, disk = fs, final_world = world r\<rparr>
      | Inr final_data \<Rightarrow>
          if final_data \<noteq> [] then
            let total = ''Total records downloaded: '' @ decimal (length final_data);
                filename = generate_unique_filename (clock (world r)) INSTRUMENT_NAME DATA_TYPE
                             START_DATE END_DATE;
                full_path = path_join OUTPUT_DIRECTORY filename
            in (case save_data_to_csv final_data full_path fs of
                  (Inl e, out, fs') \<Rightarrow>
                    Some \<lparr>raised = Some e, printed = banner @ [replicate 35 (CHR ''-''), total] @ out,
                          disk = fs', final_world = world r\<rparr>
                | (Inr u, out, fs') \<Rightarrow>
                    Some \<lparr>raised = None,
                          printed = banner @ [replicate 35 (CHR ''-''), total] @ out
                                    @ [''--- Download Process Finished ---''],
                          disk = fs', final_world = world r\<rparr>)
          else Some \<lparr>raised = None,
                     printed = banner @ [replicate 35 (CHR ''-''),
                                 ''No data was downloaded. Check parameters and API status.'',
                                 ''--- Download Process Finished ---''],
                     disk = fs, final_world = world r\<rparr>))))"

section \<open>Notions used to state the properties\<close>

text \<open>The records a returned value adds to \<^verbatim>\<open>all_data\<close>, and those of a logged call.\<close>

definition chunk_records :: "pyval \<Rightarrow> pyval list" where
  "chunk_records v = (if truthy v then (case py_iter v of Inl e \<Rightarrow> [] | Inr xs \<Rightarrow> xs) else [])"

definition call_records :: "chunk_call \<Rightarrow> pyval list" where
  "call_records c = (case snd (snd c) of Inl e \<Rightarrow> [] | Inr v \<Rightarrow> chunk_records v)"

definition call_window :: "chunk_call \<Rightarrow> int \<times> int" where
  "call_window c = (fst c, fst (snd c))"

text \<open>The number of chunks of the range from \<open>S\<close> to \<open>E\<close> with stride \<open>C\<close>, and their
  windows: the \<open>i\<close>-th starts at \<open>S + i * C\<close> and ends one stride later or at \<open>E\<close>.\<close>

definition chunk_count :: "int \<Rightarrow> int \<Rightarrow> int \<Rightarrow> nat" where
  "chunk_count S E C = nat \<lceil>of_int (E - S) / (of_int C :: rat)\<rceil>"

definition chunk_windows :: "int \<Rightarrow> int \<Rightarrow> int \<Rightarrow> (int \<times> int) list" where
  "chunk_windows S E C =
     map (\<lambda>i. (S + int i * C, min (S + (int i + 1) * C) E)) [0..<chunk_count S E C]"

text \<open>The single-chunk fetcher called on each window of a list in turn, every call in
  the world the call before left: the calls with what they returned, and the world after
  the last.\<close>

fun fetch_each :: "'w network \<Rightarrow> string \<Rightarrow> (int \<times> int) list \<Rightarrow> 'w \<Rightarrow> chunk_call list \<times> 'w" where
  "fetch_each net ins [] w = ([], w)"
| "fetch_each net ins (win # wins) w =
     (case get_funding_rate_history_chunk net ins (fst win) (snd win) w of
        (res, w') \<Rightarrow>
          (case fetch_each net ins wins w' of
             (cs, w'') \<Rightarrow> ((fst win, snd win, res) # cs, w'')))"

text \<open>Two records share their field set.\<close>

definition same_fields :: "pyval \<Rightarrow> pyval \<Rightarrow> bool" where
  "same_fields a b =
     (case (py_keys a, py_keys b) of (Inr ka, Inr kb) \<Rightarrow> set ka = set kb | _ \<Rightarrow> False)"

text \<open>Reading a decimal numeral back, and clock readings whose fields fit their
  columns.\<close>

definition digit_val :: "char \<Rightarrow> nat" where
  "digit_val c = of_char c - 48"

definition undecimal :: "string \<Rightarrow> nat" where
  "undecimal s = foldl (\<lambda>a c. 10 * a + digit_val c) 0 s"

definition in_calendar :: "datetime \<Rightarrow> bool" where
  "in_calendar t = (year t < 10000 \<and> month t < 100 \<and> day t < 100 \<and>
                    hour t < 100 \<and> minute t < 100 \<and> second t < 100)"

section \<open>Sample inputs\<close>

text \<open>A host in UTC: \<^verbatim>\<open>fromtimestamp\<close> accepts the years 1 to 9999, and the two
  configured dates fall on their UTC midnights.\<close>

definition sample_platform :: platform where
  "sample_platform = \<lparr>dt_min = - 62135596800000, dt_max = 253402300799999,
     local_midnight = (\<lambda>s. if s = ''2025-07-10'' then Inr 1752105600
                           else if s = ''2025-07-17'' then Inr 1752710400 else Inl ValueError)\<rparr>"

definition sample_record :: "int \<Rightarrow> pyval" where
  "sample_record ts = PyDict [(''timestamp'', PyInt ts), (''interest_8h'', PyFloat 0)]"

text \<open>A server that answers every request with one record; the world counts the
  requests.\<close>

definition sample_network :: "nat network" where
  "sample_network w req =
     (Response 200 (Some (PyDict [(''jsonrpc'', PyStr ''2.0''),
        (''result'', PyList [sample_record (start_timestamp req)])])), Suc w)"

text \<open>The same server, except that the first request fails in transit.\<close>

definition flaky_network :: "nat network" where
  "flaky_network w req =
     (if w = 0 then (RequestFailed, Suc w)
      else (Response 200 (Some (PyDict [(''jsonrpc'', PyStr ''2.0''),
              (''result'', PyList [sample_record (start_timestamp req)])])), Suc w))"

text \<open>A server whose body is the JSON value \<^verbatim>\<open>null\<close>, one whose body is an object without
  \<^verbatim>\<open>result\<close> and \<^verbatim>\<open>error\<close>, and one that cannot be reached.\<close>

definition null_body_network :: "unit network" where
  "null_body_network w req = (Response 200 (Some PyNone), w)"

definition unrecognised_network :: "unit network" where
  "unrecognised_network w req =
     (Response 200 (Some (PyDict [(''jsonrpc'', PyStr ''2.0''), (''id'', PyInt 1)])), w)"

definition dead_network :: "nat network" where
  "dead_network w req = (RequestFailed, Suc w)"

text \<open>Two readings of the clock within one second.\<close>

definition run_time_a :: datetime where
  "run_time_a = \<lparr>year = 2025, month = 7, day = 18, hour = 9, minute = 30, second = 0,
                  microsecond = 120000\<rparr>"

definition run_time_b :: datetime where
  "run_time_b = \<lparr>year = 2025, month = 7, day = 18, hour = 9, minute = 30, second = 0,
                  microsecond = 870000\<rparr>"

text \<open>An empty disk, two records with their fields in different orders, and the disk
  after they are saved.\<close>

definition empty_disk :: filesystem where
  "empty_disk = \<lparr>dirs = {}, files = Map.empty\<rparr>"

definition sample_rows :: "pyval list" where
  "sample_rows =
     [PyDict [(''timestamp'', PyInt 1752105600000), (''interest_8h'', PyFloat (1/2))],
      PyDict [(''interest_8h'', PyFloat (1/4)), (''timestamp'', PyInt 1752109200000)]]"


section \<open>Properties\<close>

subsection \<open>The loop\<close>

lemma chunk_step_Next:
  assumes "chunk_step pf net ins E C secs cur all tr w = Next cur' all' tr' w'"
  shows "\<exists>v. cur' = cur + C \<and> tr' = tr @ [(cur, min (cur + C) E, Inr v)] \<and>
             all' = all @ chunk_records v \<and>
             get_funding_rate_history_chunk net ins cur (min (cur + C) E) w = (Inr v, w')"
  using assms
  by (auto simp: chunk_step_def Let_def list_extend_def chunk_records_def
      split: sum.splits prod.splits if_splits)

lemma chunk_step_Raised:
  assumes "chunk_step pf net ins E C secs cur all tr w = Raised e tr' w'"
  shows "tr' = tr \<or> (\<exists>res. tr' = tr @ [(cur, min (cur + C) E, res)])"
  using assms
  by (auto simp: chunk_step_def Let_def split: sum.splits prod.splits if_splits)

lemma chunk_loop_terminates:
  assumes "0 < C"
  shows "\<exists>r. chunk_loop pf net ins E C secs cur all tr w = Some r"
proof (induction "nat (E - cur)" arbitrary: cur all tr w rule: less_induct)
  case less
  show ?case
  proof (cases "cur < E")
    case False
    then show ?thesis by (subst chunk_loop.simps) simp
  next
    case True
    show ?thesis
    proof (cases "chunk_step pf net ins E C secs cur all tr w")
      case (Raised e tr' w')
      with True show ?thesis by (subst chunk_loop.simps) simp
    next
      case (Next cur' all' tr' w')
      from chunk_step_Next [OF this] have "cur' = cur + C" by blast
      with assms True have "nat (E - cur') < nat (E - cur)" by linarith
      from less [OF this] obtain r where
        "chunk_loop pf net ins E C secs cur' all' tr' w' = Some r" by blast
      with True Next show ?thesis by (subst chunk_loop.simps) simp
    qed
  qed
qed

lemma chunk_count_done: "0 < C \<Longrightarrow> E \<le> S \<Longrightarrow> chunk_count S E C = 0"
  by (simp add: chunk_count_def divide_le_0_iff ceiling_le_zero)

lemma chunk_count_step:
  assumes "0 < C" "S < E"
  shows "chunk_count S E C = Suc (chunk_count (S + C) E C)"
proof -
  define k where "k = \<lceil>of_int (E - S) / (of_int C :: rat)\<rceil>"
  have pos: "0 < k"
    unfolding k_def using assms by simp
  have "of_int (E - (S + C)) / (of_int C :: rat) = of_int (E - S) / of_int C - 1"
    using assms by (simp add: field_simps)
  then have "\<lceil>of_int (E - (S + C)) / (of_int C :: rat)\<rceil> = k - 1"
    unfolding k_def by (simp only: ceiling_diff_one)
  then have "chunk_count (S + C) E C = nat (k - 1)" and "chunk_count S E C = nat k"
    by (simp_all only: chunk_count_def k_def)
  with pos show ?thesis by simp
qed

lemma chunk_windows_done: "0 < C \<Longrightarrow> E \<le> S \<Longrightarrow> chunk_windows S E C = []"
  by (simp add: chunk_windows_def chunk_count_done)

lemma chunk_windows_step:
  assumes "0 < C" "S < E"
  shows "chunk_windows S E C = (S, min (S + C) E) # chunk_windows (S + C) E C"
proof -
  have "[0..<Suc (chunk_count (S + C) E C)] = 0 # map Suc [0..<chunk_count (S + C) E C]"
    by (simp add: upt_conv_Cons map_Suc_upt del: upt_Suc)
  then show ?thesis
    unfolding chunk_windows_def chunk_count_step [OF assms]
    by (simp add: algebra_simps del: upt_Suc)
qed

lemma chunk_loop_returns:
  assumes "0 < C"
    and "chunk_loop pf net ins E C secs cur all tr w = Some r"
    and "outcome r = Inr data"
  shows "\<exists>new. calls r = tr @ new \<and> map call_window new = chunk_windows cur E C \<and>
               data = all @ concat (map call_records new)"
  using assms(2)
proof (induction "nat (E - cur)" arbitrary: cur all tr w rule: less_induct)
  case less
  show ?case
  proof (cases "cur < E")
    case False
    with less.prems have "r = \<lparr>outcome = Inr all, calls = tr, world = w\<rparr>"
      by (subst (asm) chunk_loop.simps) simp
    with assms(1,3) False show ?thesis
      by (simp add: chunk_windows_done)
  next
    case True
    show ?thesis
    proof (cases "chunk_step pf net ins E C secs cur all tr w")
      case (Raised e tr' w')
      with True less.prems have "r = \<lparr>outcome = Inl e, calls = tr', world = w'\<rparr>"
        by (subst (asm) chunk_loop.simps) simp
      with assms(3) show ?thesis by simp
    next
      case (Next cur' all' tr' w')
      from chunk_step_Next [OF this] obtain v where
        cur': "cur' = cur + C"
        and tr': "tr' = tr @ [(cur, min (cur + C) E, Inr v)]"
        and all': "all' = all @ chunk_records v"
        by blast
      from True Next less.prems have run: "chunk_loop pf net ins E C secs cur' all' tr' w' = Some r"
        by (subst (asm) chunk_loop.simps) simp
      from assms(1) True cur' have "nat (E - cur') < nat (E - cur)" by linarith
      from less.hyps [OF this run] obtain new where
        new: "calls r = tr' @ new" "map call_window new = chunk_windows cur' E C"
          "data = all' @ concat (map call_records new)"
        by blast
      let ?c = "(cur, min (cur + C) E, Inr v :: py_exn + pyval)"
      have "calls r = tr @ (?c # new)" using new(1) tr' by simp
      moreover have "map call_window (?c # new) = chunk_windows cur E C"
        using new(2) cur' chunk_windows_step [OF assms(1) True] by (simp add: call_window_def)
      moreover have "data = all @ concat (map call_records (?c # new))"
        using new(3) all' by (simp add: call_records_def)
      ultimately show ?thesis by blast
    qed
  qed
qed

lemma chunk_loop_fetches:
  assumes "0 < C"
    and "chunk_loop pf net ins E C secs cur all tr w = Some r"
    and "outcome r = Inr data"
  shows "\<exists>new. calls r = tr @ new \<and> (new, world r) = fetch_each net ins (chunk_windows cur E C) w"
  using assms(2)
proof (induction "nat (E - cur)" arbitrary: cur all tr w rule: less_induct)
  case less
  show ?case
  proof (cases "cur < E")
    case False
    with less.prems have "r = \<lparr>outcome = Inr all, calls = tr, world = w\<rparr>"
      by (subst (asm) chunk_loop.simps) simp
    with assms(1) False show ?thesis
      by (simp add: chunk_windows_done)
  next
    case True
    show ?thesis
    proof (cases "chunk_step pf net ins E C secs cur all tr w")
      case (Raised e tr' w')
      with True less.prems have "r = \<lparr>outcome = Inl e, calls = tr', world = w'\<rparr>"
        by (subst (asm) chunk_loop.simps) simp
      with assms(3) show ?thesis by simp
    next
      case (Next cur' all' tr' w')
      from chunk_step_Next [OF this] obtain v where
        cur': "cur' = cur + C"
        and tr': "tr' = tr @ [(cur, min (cur + C) E, Inr v)]"
        and got: "get_funding_rate_history_chunk net ins cur (min (cur + C) E) w = (Inr v, w')"
        by blast
      from True Next less.prems have run: "chunk_loop pf net ins E C secs cur' all' tr' w' = Some r"
        by (subst (asm) chunk_loop.simps) simp
      from assms(1) True cur' have "nat (E - cur') < nat (E - cur)" by linarith
      from less.hyps [OF this run] obtain new where
        new: "calls r = tr' @ new" "(new, world r) = fetch_each net ins (chunk_windows cur' E C) w'"
        by blast
      let ?c = "(cur, min (cur + C) E, Inr v :: py_exn + pyval)"
      have "calls r = tr @ (?c # new)" using new(1) tr' by simp
      moreover have "(?c # new, world r) = fetch_each net ins (chunk_windows cur E C) w"
        using new(2) [symmetric] cur' got chunk_windows_step [OF assms(1) True] by simp
      ultimately show ?thesis by blast
    qed
  qed
qed

lemma chunk_loop_stuck:
  fixes w :: 'w
  assumes run: "chunk_loop pf net ins E C secs cur all tr w = Some r"
    and "C \<le> 0" and "cur < E"
  shows "\<exists>e. outcome r = Inl e"
proof -
  let ?P = "\<lambda>(pf::platform) (net::'w network) (ins::string) E C (secs::rat) cur
      (all::pyval list) (tr::chunk_call list) (w::'w) (r::'w fetched).
      C \<le> (0::int) \<longrightarrow> cur < E \<longrightarrow> (\<exists>e. outcome r = Inl e)"
  have "?P pf net ins E C secs cur all tr w r"
  proof (rule chunk_loop.raw_induct [where P = ?P, OF _ run])
    fix loop :: "platform \<Rightarrow> 'w network \<Rightarrow> string \<Rightarrow> int \<Rightarrow> int \<Rightarrow> rat \<Rightarrow>
      int \<Rightarrow> pyval list \<Rightarrow> chunk_call list \<Rightarrow> 'w \<Rightarrow> 'w fetched option"
    fix pf net ins E C secs cur all tr w r
    assume IH: "\<And>pf net ins E C secs cur all tr w r.
        loop pf net ins E C secs cur all tr w = Some r \<Longrightarrow> ?P pf net ins E C secs cur all tr w r"
      and body: "(if cur < E
        then case chunk_step pf net ins E C secs cur all tr w of
               Raised e tr' w' \<Rightarrow> Some \<lparr>outcome = Inl e, calls = tr', world = w'\<rparr>
             | Next cur' all' tr' w' \<Rightarrow> loop pf net ins E C secs cur' all' tr' w'
        else Some \<lparr>outcome = Inr all, calls = tr, world = w\<rparr>) = Some r"
    show "?P pf net ins E C secs cur all tr w r"
    proof (intro impI)
      assume C: "C \<le> 0" and cur: "cur < E"
      show "\<exists>e. outcome r = Inl e"
      proof (cases "chunk_step pf net ins E C secs cur all tr w")
        case (Raised e tr' w')
        with cur body show ?thesis by auto
      next
        case (Next cur' all' tr' w')
        from chunk_step_Next [OF this] have "cur' = cur + C" by blast
        with C cur have "cur' < E" by simp
        moreover from Next cur body have "loop pf net ins E C secs cur' all' tr' w' = Some r"
          by simp
        ultimately show ?thesis using IH C by blast
      qed
    qed
  qed
  with assms(2,3) show ?thesis by simp
qed

lemma fetch_data_concat:
  assumes run: "fetch_data_in_chunks pf net ins S E days secs w = Some r"
    and out: "outcome r = Inr data"
  shows "data = concat (map call_records (calls r))"
proof -
  let ?C = "chunk_size_ms_of days"
  have loop: "chunk_loop pf net ins E ?C secs S [] [] w = Some r"
    using run by (simp add: fetch_data_in_chunks_def)
  show ?thesis
  proof (cases "0 < ?C")
    case True
    from chunk_loop_returns [OF True loop out] show ?thesis by auto
  next
    case False
    then have C: "?C \<le> 0" by simp
    show ?thesis
    proof (cases "S < E")
      case True
      from chunk_loop_stuck [OF loop C True] out show ?thesis by simp
    next
      case False
      with loop have "r = \<lparr>outcome = Inr [], calls = [], world = w\<rparr>"
        by (subst (asm) chunk_loop.simps) simp
      with out show ?thesis by simp
    qed
  qed
qed

lemma chunk_loop_returns_list:
  assumes "0 < C" and "0 \<le> secs" and "E \<le> dt_max pf"
    and ok: "\<And>s e w. \<exists>v w'. get_funding_rate_history_chunk net ins s e w = (Inr v, w') \<and>
                 (truthy v \<longrightarrow> (\<exists>xs. py_iter v = Inr xs))"
  shows "dt_min pf \<le> cur \<Longrightarrow>
         \<exists>r data. chunk_loop pf net ins E C secs cur all tr w = Some r \<and> outcome r = Inr data"
proof (induction "nat (E - cur)" arbitrary: cur all tr w rule: less_induct)
  case less
  show ?case
  proof (cases "cur < E")
    case False
    then show ?thesis by (subst chunk_loop.simps) simp
  next
    case True
    from ok [of cur "min (cur + C) E" w] obtain v w' where
      got: "get_funding_rate_history_chunk net ins cur (min (cur + C) E) w = (Inr v, w')"
      and iter: "truthy v \<longrightarrow> (\<exists>xs. py_iter v = Inr xs)"
      by blast
    have range: "fromtimestamp_ms pf cur = Inr ()" "fromtimestamp_ms pf (min (cur + C) E) = Inr ()"
      using True less.prems assms(1,3) by (simp_all add: fromtimestamp_ms_def)
    have "\<exists>all'. (if truthy v then list_extend all v else Inr all) = Inr all'"
      using iter by (cases "truthy v") (auto simp: list_extend_def)
    then obtain all' where acc: "(if truthy v then list_extend all v else Inr all) = Inr all'" ..
    have step: "chunk_step pf net ins E C secs cur all tr w
        = Next (cur + C) all' (tr @ [(cur, min (cur + C) E, Inr v)]) w'"
      using range got acc assms(2) by (simp add: chunk_step_def Let_def time_sleep_def)
    have "nat (E - (cur + C)) < nat (E - cur)" using assms(1) True by linarith
    moreover have "dt_min pf \<le> cur + C" using less.prems assms(1) by simp
    ultimately obtain r data where
      "chunk_loop pf net ins E C secs (cur + C) all' (tr @ [(cur, min (cur + C) E, Inr v)]) w' = Some r"
      "outcome r = Inr data"
      using less.hyps by blast
    with True step show ?thesis by (subst chunk_loop.simps) simp
  qed
qed

lemma fetch_returns_list:
  assumes "1 \<le> days" and "0 \<le> secs" and "dt_min pf \<le> S" and "E \<le> dt_max pf"
    and "\<And>s e w. \<exists>v w'. get_funding_rate_history_chunk net ins s e w = (Inr v, w') \<and>
                 (truthy v \<longrightarrow> (\<exists>xs. py_iter v = Inr xs))"
  shows "\<exists>r data. fetch_data_in_chunks pf net ins S E days secs w = Some r \<and> outcome r = Inr data"
proof -
  have "0 < chunk_size_ms_of days" using assms(1) by (simp add: chunk_size_ms_of_def)
  from chunk_loop_returns_list [OF this assms(2,4,5,3)] show ?thesis
    by (simp add: fetch_data_in_chunks_def)
qed

subsection \<open>Failures of the single-chunk fetcher\<close>

lemma transport_failure_is_None:
  "net w \<lparr>instrument_name = ins, start_timestamp = s, end_timestamp = e\<rparr> = (RequestFailed, w') \<Longrightarrow>
   get_funding_rate_history_chunk net ins s e w = (Inr PyNone, w')"
  by (simp add: get_funding_rate_history_chunk_def)

lemma http_error_is_None:
  "net w \<lparr>instrument_name = ins, start_timestamp = s, end_timestamp = e\<rparr> = (Response status body, w') \<Longrightarrow>
   400 \<le> status \<Longrightarrow> status < 600 \<Longrightarrow>
   get_funding_rate_history_chunk net ins s e w = (Inr PyNone, w')"
  by (simp add: get_funding_rate_history_chunk_def raise_for_status_def)

lemma api_error_is_None:
  "net w \<lparr>instrument_name = ins, start_timestamp = s, end_timestamp = e\<rparr>
     = (Response status (Some (PyDict kvs)), w') \<Longrightarrow>
   ''result'' \<notin> fst ` set kvs \<Longrightarrow> map_of kvs ''error'' = Some (PyDict err) \<Longrightarrow>
   map_of err ''message'' = Some m \<Longrightarrow>
   get_funding_rate_history_chunk net ins s e w = (Inr PyNone, w')"
  by (auto simp: get_funding_rate_history_chunk_def read_response_def rev_image_eqI
      dest: map_of_SomeD split: sum.splits)

lemma read_response_unrecognised:
  assumes "py_contains ''result'' js = Inr False" and "py_contains ''error'' js = Inr False"
  shows "read_response js = Inr PyNone"
  using assms by (simp add: read_response_def)

subsection \<open>The CSV writer\<close>




lemma strip_slashes_id: "p \<noteq> [] \<Longrightarrow> \<not> is_slash (last p) \<Longrightarrow> strip_slashes p = p"
  by (cases p rule: rev_cases) (simp_all add: strip_slashes_def)



text \<open>With records of one field set and a path that names a file (no trailing slash, no
  directory in its place) in an existing directory, the call returns.\<close>

lemma writerows_returns:
  assumes "\<forall>r\<in>set rs. \<exists>ks. py_keys r = Inr ks \<and> set ks \<subseteq> set hs"
  shows "\<exists>fs'. writerows p hs rs fs = (Inr (), fs')"
  using assms
proof (induction rs arbitrary: fs)
  case Nil
  then show ?case by simp
next
  case (Cons r rs)
  then obtain ks where ks: "py_keys r = Inr ks" "set ks \<subseteq> set hs" by auto
  then obtain kvs where r: "r = PyDict kvs" by (cases r) auto
  with ks have "\<not> list_ex (\<lambda>k. k \<notin> set hs) (map fst kvs)"
    by (auto simp: list_ex_iff)
  with r obtain row where "dict_to_list hs r = Inr row" by simp
  moreover from Cons obtain fs' where
    "writerows p hs rs (append_row p row fs) = (Inr (), fs')" by fastforce
  ultimately show ?case by simp
qed

lemma save_returns:
  assumes "data \<noteq> []"
    and "\<forall>r\<in>set data. same_fields r (hd data)"
    and "file_path \<noteq> []"
    and "dirname file_path \<in> dirs fs"
    and "file_path \<notin> dirs fs"
    and "files fs (dirname file_path) = None"
    and "\<not> is_slash (last file_path)"
  shows "\<exists>out fs'. save_data_to_csv data file_path fs = (Inr (), out, fs')"
proof -
  have "hd data \<in> set data" using assms(1) by simp
  with assms(2) have "same_fields (hd data) (hd data)" by blast
  then obtain headers where headers: "py_keys (hd data) = Inr headers"
    by (auto simp: same_fields_def split: sum.splits)
  have ex: "path_exists fs (dirname file_path)"
    using assms(4) by (simp add: path_exists_def)
  have op: "open_w file_path fs = Inr (fs\<lparr>files := (files fs)(file_path \<mapsto> [])\<rparr>)"
    using assms(3-7) by (simp add: open_w_def strip_slashes_id)
  have "\<exists>ks. py_keys r = Inr ks \<and> set ks \<subseteq> set headers" if "r \<in> set data" for r
  proof -
    from that assms(2) have "same_fields r (hd data)" by blast
    with headers show ?thesis
      by (cases "py_keys r") (simp_all add: same_fields_def)
  qed
  then have "\<forall>r\<in>set data. \<exists>ks. py_keys r = Inr ks \<and> set ks \<subseteq> set headers"
    by blast
  from writerows_returns [OF this] obtain fs' where
    "writerows file_path headers data
       (append_row file_path (map PyStr headers) (fs\<lparr>files := (files fs)(file_path \<mapsto> [])\<rparr>))
     = (Inr (), fs')" by blast
  with assms(1) headers ex op show ?thesis
    by (simp add: save_data_to_csv_def Let_def)
qed

subsection \<open>The run timestamp\<close>

lemma digit_val_digit_char: "d < 10 \<Longrightarrow> digit_val (digit_char d) = d"
proof -
  assume "d < 10"
  then have "d \<in> {0, 1, 2, 3, 4, 5, 6, 7, 8, 9}" by auto
  then show ?thesis
    by (auto simp: digit_val_def digit_char_def)
qed

lemma undecimal_snoc: "undecimal (s @ [c]) = 10 * undecimal s + digit_val c"
  by (simp add: undecimal_def)

lemma undecimal_decimal: "undecimal (decimal n) = n"
proof (induction n rule: decimal.induct)
  case (1 n)
  show ?case
  proof (cases "n < 10")
    case True
    then show ?thesis
      by (subst decimal.simps) (simp add: undecimal_def digit_val_digit_char)
  next
    case False
    with 1 have "undecimal (decimal (n div 10)) = n div 10" by simp
    with False show ?thesis
      by (subst decimal.simps) (simp add: undecimal_snoc digit_val_digit_char)
  qed
qed

lemma undecimal_zero_pad: "undecimal (zero_pad w (decimal n)) = n"
proof -
  have "foldl (\<lambda>a c. 10 * a + digit_val c) 0 (replicate k (CHR ''0'')) = 0" for k
    by (induction k) (simp_all add: digit_val_def)
  then show ?thesis
    using undecimal_decimal [of n] by (simp add: zero_pad_def undecimal_def)
qed

lemma length_decimal: "0 < w \<Longrightarrow> n < 10 ^ w \<Longrightarrow> length (decimal n) \<le> w"
proof (induction n arbitrary: w rule: decimal.induct)
  case (1 n)
  show ?case
  proof (cases "n < 10")
    case True
    with 1 show ?thesis by (subst decimal.simps) simp
  next
    case False
    obtain v where w: "w = Suc v" using "1.prems"(1) by (cases w) auto
    have "0 < v" using False "1.prems"(2) w by (cases v) auto
    moreover have "n div 10 < 10 ^ v" using "1.prems"(2) w by (simp add: less_mult_imp_div_less mult.commute)
    ultimately have "length (decimal (n div 10)) \<le> v" using "1.IH" False by simp
    with False w show ?thesis by (subst decimal.simps) simp
  qed
qed

lemma length_zero_pad: "0 < w \<Longrightarrow> n < 10 ^ w \<Longrightarrow> length (zero_pad w (decimal n)) = w"
  using length_decimal [of w n] by (simp add: zero_pad_def)

lemma zero_pad_inj:
  "zero_pad w (decimal n) = zero_pad w (decimal m) \<Longrightarrow> n = m"
  by (metis undecimal_zero_pad)

lemma strftime_inj:
  assumes "in_calendar t" "in_calendar u" "strftime t = strftime u"
  shows "year t = year u \<and> month t = month u \<and> day t = day u \<and>
         hour t = hour u \<and> minute t = minute u \<and> second t = second u"
proof -
  have len: "length (zero_pad 4 (decimal (year t))) = length (zero_pad 4 (decimal (year u)))"
    "length (zero_pad 2 (decimal (month t))) = length (zero_pad 2 (decimal (month u)))"
    "length (zero_pad 2 (decimal (day t))) = length (zero_pad 2 (decimal (day u)))"
    "length (zero_pad 2 (decimal (hour t))) = length (zero_pad 2 (decimal (hour u)))"
    "length (zero_pad 2 (decimal (minute t))) = length (zero_pad 2 (decimal (minute u)))"
    using assms(1,2) by (simp_all add: in_calendar_def length_zero_pad)
  from assms(3) len have
    "zero_pad 4 (decimal (year t)) = zero_pad 4 (decimal (year u))"
    "zero_pad 2 (decimal (month t)) = zero_pad 2 (decimal (month u))"
    "zero_pad 2 (decimal (day t)) = zero_pad 2 (decimal (day u))"
    "zero_pad 2 (decimal (hour t)) = zero_pad 2 (decimal (hour u))"
    "zero_pad 2 (decimal (minute t)) = zero_pad 2 (decimal (minute u))"
    "zero_pad 2 (decimal (second t)) = zero_pad 2 (decimal (second u))"
    unfolding strftime_def by simp_all
  then show ?thesis by (simp add: zero_pad_inj)
qed

lemma filename_distinct_when_stamps_differ:
  assumes "in_calendar t" "in_calendar u"
    and "(year t, month t, day t, hour t, minute t, second t)
         \<noteq> (year u, month u, day u, hour u, minute u, second u)"
  shows "generate_unique_filename t i d s e \<noteq> generate_unique_filename u i d s e"
proof
  assume "generate_unique_filename t i d s e = generate_unique_filename u i d s e"
  then have "strftime t = strftime u"
    by (simp add: generate_unique_filename_def)
  from strftime_inj [OF assms(1,2) this] assms(3) show False by simp
qed

subsection \<open>Sample runs\<close>

lemma sample_chunk:
  "get_funding_rate_history_chunk sample_network ins s e w = (Inr (PyList [sample_record s]), Suc w)"
  by (simp add: get_funding_rate_history_chunk_def sample_network_def raise_for_status_def read_response_def)

lemma sample_step:
  "- 62135596800000 \<le> s \<Longrightarrow> s < E \<Longrightarrow> E \<le> 253402300799999 \<Longrightarrow> 
   chunk_step sample_platform sample_network ins E 86400000 (1/2) s all tr w
   = Next (s + 86400000) (all @ [sample_record s]) (tr @ [(s, min (s + 86400000) E, Inr (PyList [sample_record s]))]) (Suc w)"
  by (simp add: chunk_step_def Let_def sample_chunk fromtimestamp_ms_def sample_platform_def time_sleep_def list_extend_def min_def)

lemma sample_run:
  "fetch_data_in_chunks sample_platform sample_network ''BTC-PERPETUAL'' 1752105600000 1752278400000 1 (1/2) 0
   = Some \<lparr>outcome = Inr [sample_record 1752105600000, sample_record 1752192000000],
            calls = [(1752105600000, 1752192000000, Inr (PyList [sample_record 1752105600000])),
                     (1752192000000, 1752278400000, Inr (PyList [sample_record 1752192000000]))],
            world = 2\<rparr>"
  unfolding fetch_data_in_chunks_def chunk_size_ms_of_def
  apply (simp)
  apply (subst chunk_loop.simps, simp add: sample_step)
  apply (subst chunk_loop.simps, simp add: sample_step)
  apply (subst chunk_loop.simps, simp)
  done


lemma dead_loop:
  assumes "0 < C" and "E \<le> dt_max pf"
  shows "dt_min pf \<le> cur \<Longrightarrow>
         \<exists>r. chunk_loop pf dead_network ins E C (1/2) cur all tr w = Some r \<and> outcome r = Inr all"
proof (induction "nat (E - cur)" arbitrary: cur tr w rule: less_induct)
  case less
  show ?case
  proof (cases "cur < E")
    case False
    then show ?thesis by (subst chunk_loop.simps) simp
  next
    case True
    have step: "chunk_step pf dead_network ins E C (1/2) cur all tr w
        = Next (cur + C) all (tr @ [(cur, min (cur + C) E, Inr PyNone)]) (Suc w)"
      using True less.prems assms
      by (simp add: chunk_step_def Let_def time_sleep_def fromtimestamp_ms_def
          get_funding_rate_history_chunk_def dead_network_def)
    have "nat (E - (cur + C)) < nat (E - cur)" using assms(1) True by linarith
    moreover have "dt_min pf \<le> cur + C" using less.prems assms(1) by simp
    ultimately obtain r where
      "chunk_loop pf dead_network ins E C (1/2) (cur + C) all
         (tr @ [(cur, min (cur + C) E, Inr PyNone)]) (Suc w) = Some r" "outcome r = Inr all"
      using less.hyps by blast
    with True step show ?thesis by (subst chunk_loop.simps) simp
  qed
qed

lemma dead_run:
  "\<exists>r. fetch_data_in_chunks sample_platform dead_network INSTRUMENT_NAME 1752105600000 1752710400000
          CHUNK_SIZE_DAYS SLEEP_INTERVAL_SECONDS 0 = Some r \<and> outcome r = Inr []"
  unfolding fetch_data_in_chunks_def SLEEP_INTERVAL_SECONDS_def
  by (rule dead_loop) (simp_all add: chunk_size_ms_of_def CHUNK_SIZE_DAYS_def sample_platform_def)







lemma save_without_directory:
  "save_data_to_csv sample_rows ''f.csv'' empty_disk = (Inl FileNotFoundError, [], empty_disk)"
  by (simp add: sample_rows_def empty_disk_def save_data_to_csv_def Let_def dirname_def
      is_slash_def path_exists_def makedirs_def)

lemma strftime_a: "strftime run_time_a = ''20250718-093000''"
  by (simp add: strftime_def run_time_a_def zero_pad_def decimal.simps digit_char_def)

subsection \<open>The claims\<close>

text \<open>
  Claim C1. For a range with \<open>S < E\<close> and the stride \<open>C\<close> of \<^verbatim>\<open>chunk_size_days\<close> days in
  milliseconds, a call of \<^verbatim>\<open>_fetch_data_in_chunks\<close> that returns its list has invoked the
  single-chunk fetcher exactly \<open>\<lceil>(E - S) / C\<rceil>\<close> times, and the \<open>i\<close>-th call, counted
  from zero, was made with the window from \<open>S + i * C\<close> to \<open>min (S + (i + 1) * C) E\<close>:
  the calls made, their results and the world they leave are those of the fetcher
  applied to these windows one after the other, and of nothing else.
\<close>

theorem fetch_calls_are_chunk_windows:
  assumes "S < E"
    and "fetch_data_in_chunks pf net ins S E days secs w = Some r"
    and "outcome r = Inr data"
  shows "length (calls r) = nat \<lceil>of_int (E - S) / (of_int (chunk_size_ms_of days) :: rat)\<rceil> \<and>
         map call_window (calls r) =
           map (\<lambda>i. (S + int i * chunk_size_ms_of days,
                      min (S + (int i + 1) * chunk_size_ms_of days) E))
             [0..<nat \<lceil>of_int (E - S) / (of_int (chunk_size_ms_of days) :: rat)\<rceil>] \<and>
         (calls r, world r) =
           fetch_each net ins
             (map (\<lambda>i. (S + int i * chunk_size_ms_of days,
                        min (S + (int i + 1) * chunk_size_ms_of days) E))
               [0..<nat \<lceil>of_int (E - S) / (of_int (chunk_size_ms_of days) :: rat)\<rceil>]) w"
proof -
  let ?C = "chunk_size_ms_of days"
  have run: "chunk_loop pf net ins E ?C secs S [] [] w = Some r"
    using assms(2) by (simp add: fetch_data_in_chunks_def)
  have pos: "0 < ?C"
  proof (rule ccontr)
    assume "\<not> 0 < ?C"
    then have "?C \<le> 0" by simp
    from chunk_loop_stuck [OF run this assms(1)] assms(3) show False by simp
  qed
  from chunk_loop_returns [OF pos run assms(3)]
  have windows: "map call_window (calls r) = chunk_windows S E ?C" by auto
  then have len: "length (calls r) = length (chunk_windows S E ?C)"
    by (metis length_map)
  from chunk_loop_fetches [OF pos run assms(3)]
  have fetched: "(calls r, world r) = fetch_each net ins (chunk_windows S E ?C) w" by auto
  from windows len fetched show ?thesis
    by (simp add: chunk_windows_def chunk_count_def)
qed

text \<open>The example of the specification: from 2025-07-10 to 2025-07-12 in chunks of one
  day, two calls, for 07-10 to 07-11 and 07-11 to 07-12; the server has seen two
  requests.\<close>

theorem fetch_calls_are_chunk_windows_witness:
  "\<exists>r. fetch_data_in_chunks sample_platform sample_network ''BTC-PERPETUAL''
          1752105600000 1752278400000 1 (1/2) 0 = Some r \<and>
       length (calls r) = 2 \<and>
       map call_window (calls r) =
         [(1752105600000, 1752192000000), (1752192000000, 1752278400000)] \<and>
       calls r = [(1752105600000, 1752192000000, Inr (PyList [sample_record 1752105600000])),
                  (1752192000000, 1752278400000, Inr (PyList [sample_record 1752192000000]))] \<and>
       world r = 2"
proof -
  have lt: "(1752105600000::int) < 1752278400000" by simp
  from sample_run obtain r data where
    run: "fetch_data_in_chunks sample_platform sample_network ''BTC-PERPETUAL''
            1752105600000 1752278400000 1 (1/2) 0 = Some r"
    and out: "outcome r = Inr data"
    by simp
  have two: "[0..<2] = [0, Suc 0]" by (simp add: upt_rec)
  from fetch_calls_are_chunk_windows [OF lt run out]
  have found: "length (calls r) = 2 \<and>
        map call_window (calls r) =
          [(1752105600000, 1752192000000), (1752192000000, 1752278400000)] \<and>
        calls r = [(1752105600000, 1752192000000, Inr (PyList [sample_record 1752105600000])),
                  (1752192000000, 1752278400000, Inr (PyList [sample_record 1752192000000]))] \<and>
        world r = 2"
    by (simp add: chunk_size_ms_of_def two sample_chunk call_window_def)
  show ?thesis by (rule exI [of _ r]) (rule conjI [OF run found])
qed

text \<open>
  Claim C2. When a chunk fetch fails, that is, the single-chunk fetcher returns
  \<^verbatim>\<open>None\<close>, nothing is raised in that pass of the loop, \<^verbatim>\<open>all_data\<close> is left as it
  was (the chunk adds no record), and the loop goes on with the next chunk, one stride
  later. The pass is one in which the fetcher is reached (the two dates of the progress
  line could be computed) and the pause is not negative.
\<close>

theorem failed_chunk_is_skipped:
  assumes "cur < E"
    and "fromtimestamp_ms pf cur = Inr ()"
    and "fromtimestamp_ms pf (min (cur + C) E) = Inr ()"
    and "get_funding_rate_history_chunk net ins cur (min (cur + C) E) w = (Inr PyNone, w')"
    and "0 \<le> secs"
  shows "chunk_step pf net ins E C secs cur all tr w
           = Next (cur + C) all (tr @ [(cur, min (cur + C) E, Inr PyNone)]) w' \<and>
         chunk_loop pf net ins E C secs cur all tr w
           = chunk_loop pf net ins E C secs (cur + C) all
               (tr @ [(cur, min (cur + C) E, Inr PyNone)]) w'"
proof -
  have step: "chunk_step pf net ins E C secs cur all tr w
           = Next (cur + C) all (tr @ [(cur, min (cur + C) E, Inr PyNone)]) w'"
    using assms(2-5) by (simp add: chunk_step_def Let_def time_sleep_def)
  moreover have "chunk_loop pf net ins E C secs cur all tr w
           = chunk_loop pf net ins E C secs (cur + C) all
               (tr @ [(cur, min (cur + C) E, Inr PyNone)]) w'"
    using assms(1) step by (subst chunk_loop.simps) simp
  ultimately show ?thesis by simp
qed

text \<open>A pass in which the request fails in transit.\<close>

theorem failed_chunk_is_skipped_witness:
  "chunk_step sample_platform flaky_network ''BTC-PERPETUAL'' 1752278400000 86400000 (1/2)
     1752105600000 [] [] 0
     = Next (1752105600000 + 86400000) []
         ([] @ [(1752105600000, min (1752105600000 + 86400000) 1752278400000, Inr PyNone)]) (Suc 0) \<and>
   chunk_loop sample_platform flaky_network ''BTC-PERPETUAL'' 1752278400000 86400000 (1/2)
     1752105600000 [] [] 0
     = chunk_loop sample_platform flaky_network ''BTC-PERPETUAL'' 1752278400000 86400000 (1/2)
         (1752105600000 + 86400000) []
         ([] @ [(1752105600000, min (1752105600000 + 86400000) 1752278400000, Inr PyNone)]) (Suc 0)"
proof -
  have h1: "(1752105600000::int) < 1752278400000" by simp
  have h2: "fromtimestamp_ms sample_platform 1752105600000 = Inr ()"
    by (simp add: fromtimestamp_ms_def sample_platform_def)
  have h3: "fromtimestamp_ms sample_platform (min (1752105600000 + 86400000) 1752278400000) = Inr ()"
    by (simp add: fromtimestamp_ms_def sample_platform_def)
  have h4: "get_funding_rate_history_chunk flaky_network ''BTC-PERPETUAL'' 1752105600000
      (min (1752105600000 + 86400000) 1752278400000) 0 = (Inr PyNone, Suc 0)"
    by (simp add: get_funding_rate_history_chunk_def flaky_network_def)
  have h5: "(0::rat) \<le> 1/2" by simp
  show ?thesis
    by (rule failed_chunk_is_skipped [OF h1 h2 h3 h4 h5])
qed



text \<open>
  Claim C4, which the code does not meet. Two runs of \<^verbatim>\<open>_generate_unique_filename\<close> with
  the same instrument, data type and dates, at two different moments of the same second,
  return the same name: the run timestamp has no part finer than the second. The name
  has the form \<^verbatim>\<open>DERIBIT_<instrument>_<data_type>_from_<start>_to_<end>_at_<run_timestamp>.csv\<close>.
\<close>

theorem same_second_same_filename:
  "run_time_a \<noteq> run_time_b \<and>
   generate_unique_filename run_time_a ''BTC-PERPETUAL'' ''funding_rate_history'' ''2025-07-10'' ''2025-07-17''
     = ''DERIBIT_BTC-PERPETUAL_funding_rate_history_from_2025-07-10_to_2025-07-17_at_20250718-093000.csv'' \<and>
   generate_unique_filename run_time_b ''BTC-PERPETUAL'' ''funding_rate_history'' ''2025-07-10'' ''2025-07-17''
     = ''DERIBIT_BTC-PERPETUAL_funding_rate_history_from_2025-07-10_to_2025-07-17_at_20250718-093000.csv''"
proof -
  have "strftime run_time_b = strftime run_time_a"
    by (simp add: strftime_def run_time_a_def run_time_b_def)
  then show ?thesis
    by (simp add: generate_unique_filename_def strftime_a) (simp add: run_time_a_def run_time_b_def)
qed

text \<open>
  Claim C5. In a run of \<^verbatim>\<open>download_historical_data\<close> whose aggregated dataset is empty,
  nothing is raised, the line saying that no data was downloaded is printed, and the
  file system is left as it was; \<^verbatim>\<open>_save_data_to_csv\<close>, were it called with the empty
  list, would leave it so as well.
\<close>

theorem empty_dataset_writes_nothing:
  assumes "date_to_timestamp_ms pf START_DATE = Inr start_ts"
    and "date_to_timestamp_ms pf END_DATE = Inr end_ts"
    and "fetch_data_in_chunks pf net INSTRUMENT_NAME start_ts end_ts CHUNK_SIZE_DAYS
           SLEEP_INTERVAL_SECONDS w = Some r"
    and "outcome r = Inr []"
  shows "\<exists>out. download_historical_data pf net clock w fs
              = Some \<lparr>raised = None, printed = out, disk = fs, final_world = world r\<rparr> \<and>
           ''No data was downloaded. Check parameters and API status.'' \<in> set out \<and>
           snd (snd (save_data_to_csv [] file_path fs)) = fs"
  using assms
  by (simp add: download_historical_data_def Let_def save_data_to_csv_def
      INSTRUMENT_NAME_def START_DATE_def END_DATE_def)

text \<open>A run against a server that cannot be reached.\<close>

theorem empty_dataset_writes_nothing_witness:
  "\<exists>(r :: nat fetched) out. download_historical_data sample_platform dead_network (\<lambda>w. run_time_a) 0 empty_disk
              = Some \<lparr>raised = None, printed = out, disk = empty_disk, final_world = world r\<rparr> \<and>
           ''No data was downloaded. Check parameters and API status.'' \<in> set out"
proof -
  have h1: "date_to_timestamp_ms sample_platform START_DATE = Inr 1752105600000"
    by (simp add: date_to_timestamp_ms_def sample_platform_def START_DATE_def)
  have h2: "date_to_timestamp_ms sample_platform END_DATE = Inr 1752710400000"
    by (simp add: date_to_timestamp_ms_def sample_platform_def END_DATE_def)
  from dead_run obtain r where
    h3: "fetch_data_in_chunks sample_platform dead_network INSTRUMENT_NAME 1752105600000 1752710400000
          CHUNK_SIZE_DAYS SLEEP_INTERVAL_SECONDS 0 = Some r"
    and h4: "outcome r = Inr []" by blast
  from empty_dataset_writes_nothing [OF h1 h2 h3 h4, of "\<lambda>w. run_time_a" empty_disk "[]"]
  obtain out where
    a: "download_historical_data sample_platform dead_network (\<lambda>w. run_time_a) 0 empty_disk
          = Some \<lparr>raised = None, printed = out, disk = empty_disk, final_world = world r\<rparr>"
    and b: "''No data was downloaded. Check parameters and API status.'' \<in> set out"
    by (elim exE conjE)
  show ?thesis
    by (rule exI [of _ r], rule exI [of _ out], rule conjI [OF a b])
qed

text \<open>
  Claim C6. When every chunk fetch of a run returns a list of exactly \<open>N\<close> records, the
  list \<^verbatim>\<open>_fetch_data_in_chunks\<close> returns is the concatenation of these lists in the
  order of the calls, so it has as many records as \<open>N\<close> times the number of chunks,
  those of an earlier chunk before those of a later one and each chunk in its own order.
\<close>

theorem chunks_concatenated_in_fetch_order:
  assumes "fetch_data_in_chunks pf net ins S E days secs w = Some r"
    and "outcome r = Inr data"
    and "map (\<lambda>c. snd (snd c)) (calls r) = map (\<lambda>recs. Inr (PyList recs)) chunks"
    and "\<forall>recs\<in>set chunks. length recs = N"
  shows "data = concat chunks \<and> length data = length (calls r) * N"
proof -
  have "map call_records (calls r) = map (\<lambda>res. case res of Inl e \<Rightarrow> [] | Inr v \<Rightarrow> chunk_records v)
          (map (\<lambda>c. snd (snd c)) (calls r))"
    by (simp add: call_records_def comp_def)
  also have "\<dots> = map (\<lambda>recs. chunk_records (PyList recs)) chunks"
    by (simp add: assms(3) comp_def)
  also have "\<dots> = chunks"
    by (simp add: chunk_records_def map_idI)
  finally have recs: "map call_records (calls r) = chunks" .
  with fetch_data_concat [OF assms(1,2)] have data: "data = concat chunks" by simp
  have "length (calls r) = length chunks"
    using assms(3) by (metis length_map)
  moreover have "length (concat chunks) = length chunks * N"
    using assms(4) by (induction chunks) simp_all
  ultimately show ?thesis using data by simp
qed

theorem chunks_concatenated_in_fetch_order_witness:
  "\<exists>r data. fetch_data_in_chunks sample_platform sample_network ''BTC-PERPETUAL''
            1752105600000 1752278400000 1 (1/2) 0 = Some r \<and>
     outcome r = Inr data \<and>
     data = concat [[sample_record 1752105600000], [sample_record 1752192000000]] \<and>
     length data = length (calls r) * 1"
proof -
  let ?chunks = "[[sample_record 1752105600000], [sample_record 1752192000000]]"
  let ?data = "[sample_record 1752105600000, sample_record 1752192000000]"
  let ?r = "\<lparr>outcome = Inr ?data,
            calls = [(1752105600000, 1752192000000, Inr (PyList [sample_record 1752105600000])),
                     (1752192000000, 1752278400000, Inr (PyList [sample_record 1752192000000]))],
            world = 2::nat\<rparr>"
  have h2: "outcome ?r = Inr ?data" by simp
  have h3: "map (\<lambda>c. snd (snd c)) (calls ?r) = map (\<lambda>recs. Inr (PyList recs)) ?chunks" by simp
  have h4: "\<forall>recs\<in>set ?chunks. length recs = 1" by simp
  note t = chunks_concatenated_in_fetch_order [OF sample_run h2 h3 h4]
  show ?thesis
    by (intro exI [of _ ?r] exI [of _ ?data] conjI sample_run h2 conjunct1 [OF t] conjunct2 [OF t])
qed

text \<open>
  Claim C8. With \<^verbatim>\<open>chunk_size_days\<close> at least 1 the stride is positive, every pass of
  the loop that goes on moves \<^verbatim>\<open>current_start_ts\<close> strictly forward, and the loop ends:
  \<^verbatim>\<open>_fetch_data_in_chunks\<close> returns or raises, for every start, end, pause, network and
  host.
\<close>

theorem positive_stride_terminates:
  assumes "1 \<le> chunk_size_days"
  shows "0 < chunk_size_ms_of chunk_size_days \<and>
         (\<forall>cur all tr w cur' all' tr' w'.
            chunk_step pf net ins E (chunk_size_ms_of chunk_size_days) secs cur all tr w
              = Next cur' all' tr' (w' :: 'w) \<longrightarrow> cur < cur') \<and>
         (\<exists>r. fetch_data_in_chunks pf net ins S E chunk_size_days secs (w0 :: 'w) = Some r)"
proof -
  have pos: "0 < chunk_size_ms_of chunk_size_days"
    using assms by (simp add: chunk_size_ms_of_def)
  have "cur < cur'"
    if "chunk_step pf net ins E (chunk_size_ms_of chunk_size_days) secs cur all tr w
          = Next cur' all' tr' w'" for cur all tr and w w' :: 'w and cur' all' tr'
    using chunk_step_Next [OF that] pos by auto
  moreover have "\<exists>r. fetch_data_in_chunks pf net ins S E chunk_size_days secs w0 = Some r"
    unfolding fetch_data_in_chunks_def by (rule chunk_loop_terminates [OF pos])
  ultimately show ?thesis using pos by blast
qed

theorem positive_stride_terminates_witness:
  "(1::int) \<le> 1 \<and> 0 < chunk_size_ms_of 1 \<and>
   (\<exists>r. fetch_data_in_chunks sample_platform sample_network ''BTC-PERPETUAL''
          1752105600000 1752278400000 1 (1/2) (0::nat) = Some r)"
proof -
  have h: "(1::int) \<le> 1" by simp
  note t = positive_stride_terminates [OF h]
  show ?thesis
    by (intro conjI h conjunct1 [OF t] conjunct2 [OF conjunct2 [OF t]])
qed

text \<open>
  Claim C9, as stated, fails: a body that decodes to a JSON value other than an object,
  an array or a string, such as \<^verbatim>\<open>null\<close>, has neither key, and the membership test
  raises a \<^verbatim>\<open>TypeError\<close> that the function does not catch.
\<close>

theorem scalar_body_raises:
  "get_funding_rate_history_chunk null_body_network ''BTC-PERPETUAL'' 1752105600000 1752192000000 ()
     = (Inl TypeError, ())"
  by (simp add: get_funding_rate_history_chunk_def null_body_network_def raise_for_status_def
      read_response_def)

text \<open>
  Claim C9, amended. For every response whose body decodes to a JSON object with
  neither a \<^verbatim>\<open>result\<close> nor an \<^verbatim>\<open>error\<close> key, \<^verbatim>\<open>_get_funding_rate_history_chunk\<close>
  returns \<^verbatim>\<open>None\<close>, whatever the status code.
\<close>

theorem unrecognised_object_is_None:
  assumes "net w \<lparr>instrument_name = ins, start_timestamp = s, end_timestamp = e\<rparr>
             = (Response status (Some (PyDict kvs)), w')"
    and "''result'' \<notin> fst ` set kvs"
    and "''error'' \<notin> fst ` set kvs"
  shows "get_funding_rate_history_chunk net ins s e w = (Inr PyNone, w')"
proof -
  have "read_response (PyDict kvs) = Inr PyNone"
    using assms(2,3) by (intro read_response_unrecognised) simp_all
  with assms(1) show ?thesis
    by (simp add: get_funding_rate_history_chunk_def)
qed

text \<open>A JSON-RPC envelope without result and error.\<close>

theorem unrecognised_object_is_None_witness:
  "get_funding_rate_history_chunk unrecognised_network ''BTC-PERPETUAL'' 1752105600000 1752192000000 ()
     = (Inr PyNone, ())"
proof -
  have h1: "unrecognised_network () \<lparr>instrument_name = ''BTC-PERPETUAL'',
        start_timestamp = 1752105600000, end_timestamp = 1752192000000\<rparr>
      = (Response 200 (Some (PyDict [(''jsonrpc'', PyStr ''2.0''), (''id'', PyInt 1)])), ())"
    by (simp add: unrecognised_network_def)
  have h2: "''result'' \<notin> fst ` set [(''jsonrpc'', PyStr ''2.0''), (''id'', PyInt 1)]" by simp
  have h3: "''error'' \<notin> fst ` set [(''jsonrpc'', PyStr ''2.0''), (''id'', PyInt 1)]" by simp
  show ?thesis
    by (rule unrecognised_object_is_None [where net = unrecognised_network and w = "()", OF h1 h2 h3])
qed

text \<open>
  Claim C10. A call of \<^verbatim>\<open>_save_data_to_csv\<close> with an empty record list leaves the
  file system exactly as it was: no file is created or truncated and no directory is
  made, whatever the path and whether or not its parent directory exists; the function
  prints its notice and returns.
\<close>

theorem save_empty_leaves_filesystem:
  "save_data_to_csv [] file_path fs = (Inr (), [''No data to save.''], fs)"
  by (simp add: save_data_to_csv_def)

end
